theory Spec2Isabelle
  imports Complex_Main
begin

section \<open>The lifecycle sequencer of gns3server/core/tasks.py\<close>

text \<open>
  The two handlers of \<^verbatim>\<open>gns3server/core/tasks.py\<close> perform no computation of their
  own: they call collaborators in a fixed order. A run is therefore modelled by what it
  does to them: the list of events it performs, the exception it ends with (if any), and
  the part of the process state the handlers read and write (the \<^verbatim>\<open>PortManager\<close>
  singleton and the \<^verbatim>\<open>port_manager\<close> attribute of every module singleton).
  What a collaborator answers (a value or an exception) is a parameter of the run.
\<close>

subsection \<open>Data\<close>

datatype error = Error string

text \<open>An element of \<^verbatim>\<open>MODULES\<close>: a manager class, with its \<^verbatim>\<open>__name__\<close>.\<close>

datatype module = Module string

fun name_of :: "module \<Rightarrow> string" where
  "name_of (Module n) = n"

text \<open>The class imported in \<^verbatim>\<open>start_app\<close> by \<^verbatim>\<open>from gns3server.compute.qemu import Qemu\<close>.\<close>

definition Qemu :: module where
  "Qemu = Module ''Qemu''"

datatype level = DEBUG | INFO | WARNING | ERROR | CRITICAL

datatype protocol = TCP | UDP

text \<open>The messages the handlers log (the f-strings of the source, by their parts).\<close>

datatype message =
    Loading_module string
  | Unloading_module string
  | TCP_ports_are_still_used "nat set"
  | UDP_ports_are_still_used "nat set"

text \<open>
  The coroutines the handlers call, and the hooks of a module. \<^verbatim>\<open>List_images\<close> is
  \<^verbatim>\<open>Qemu.instance().list_images()\<close>; \<^verbatim>\<open>Start\<close> is the start hook of the module
  capability; the others are the awaited calls of the source.
\<close>

datatype 'c call =
    Connect_to_db
  | Get_computes
  | Controller_start "'c list"
  | Close_session
  | Controller_stop
  | List_images
  | Unload module
  | Start module

datatype callback = Wakeup

text \<open>
  The events of a run. \<^verbatim>\<open>Await c\<close> is the handler calling \<^verbatim>\<open>c\<close> and suspending on
  it; \<^verbatim>\<open>Resume c\<close> is \<^verbatim>\<open>c\<close> having returned and the handler going on. A call that
  raises has no \<^verbatim>\<open>Resume\<close>. \<^verbatim>\<open>Ensure_future c\<close> is \<^verbatim>\<open>asyncio.ensure_future(c)\<close>:
  the coroutine is handed to the loop as a task and the handler goes on.
  \<^verbatim>\<open>Instance m\<close> is \<^verbatim>\<open>m.instance()\<close> having returned the singleton of \<^verbatim>\<open>m\<close>.
\<close>

datatype 'c event =
    Set_level string level
  | Call_later rat callback
  | Set_debug bool
  | Await "'c call"
  | Resume "'c call"
  | Ensure_future "'c call"
  | Log level message
  | Instance module
  | Set_port_manager module nat
  | Read_ports protocol nat

record ports =
  tcp_ports :: "nat set"
  udp_ports :: "nat set"

text \<open>
  The process state the handlers touch. Port manager objects live in a store, by address,
  since every module is given a reference to one object.
\<close>

record world =
  pm_instance :: "nat option"
  next_addr :: nat
  store :: "nat \<Rightarrow> ports"
  port_manager :: "module \<Rightarrow> nat option"

text \<open>
  The collaborators, none of which is defined in \<^verbatim>\<open>tasks.py\<close>: what each call answers.
  \<^verbatim>\<open>None\<close> or \<^verbatim>\<open>Inr\<close> is a normal return, \<^verbatim>\<open>Some e\<close> or \<^verbatim>\<open>Inl e\<close> the exception
  raised. An unload hook may release ports: it maps the store of port managers to a new one.
  \<^verbatim>\<open>list_images\<close> is the result of the image listing coroutine when the loop runs it.
\<close>

record ('app, 'c) env =
  platform :: string
  effective_level :: level
  MODULES :: "module list"
  connect_to_db :: "'app \<Rightarrow> error option"
  get_computes :: "'app \<Rightarrow> error + 'c list"
  controller_start :: "'c list \<Rightarrow> error option"
  module_instance :: "module \<Rightarrow> error option"
  list_images :: "error + string list"
  close_session :: "error option"
  controller_stop :: "error option"
  unload :: "module \<Rightarrow> (nat \<Rightarrow> ports) \<Rightarrow> error + (nat \<Rightarrow> ports)"

subsection \<open>Programs: events, exceptions and state\<close>

type_synonym ('c, 'a) prog = "world \<Rightarrow> (error + 'a) \<times> 'c event list \<times> world"

definition outcome :: "(error + 'a) \<times> 'c event list \<times> world \<Rightarrow> error + 'a" where
  "outcome r = fst r"

definition events :: "(error + 'a) \<times> 'c event list \<times> world \<Rightarrow> 'c event list" where
  "events r = fst (snd r)"

definition final :: "(error + 'a) \<times> 'c event list \<times> world \<Rightarrow> world" where
  "final r = snd (snd r)"

definition returns :: "'a \<Rightarrow> ('c, 'a) prog" where
  "returns x w = (Inr x, [], w)"

definition raise :: "error \<Rightarrow> ('c, 'a) prog" where
  "raise e w = (Inl e, [], w)"

definition emit :: "'c event \<Rightarrow> ('c, unit) prog" where
  "emit ev w = (Inr (), [ev], w)"

text \<open>Sequencing: an exception of the first part ends the run; the second part is skipped.\<close>

definition bind_prog :: "('c, 'a) prog \<Rightarrow> ('a \<Rightarrow> ('c, 'b) prog) \<Rightarrow> ('c, 'b) prog" where
  "bind_prog p f w =
     (case p w of
        (Inl e, t, w') \<Rightarrow> (Inl e, t, w')
      | (Inr x, t, w') \<Rightarrow> (case f x w' of (r, t', w'') \<Rightarrow> (r, t @ t', w'')))"

definition then_prog :: "('c, unit) prog \<Rightarrow> ('c, 'b) prog \<Rightarrow> ('c, 'b) prog" where
  "then_prog p q = bind_prog p (\<lambda>_. q)"

definition when_prog :: "bool \<Rightarrow> ('c, unit) prog \<Rightarrow> ('c, unit) prog" where
  "when_prog b p = (if b then p else returns ())"

text \<open>\<^verbatim>\<open>await c\<close>, where the coroutine answers \<^verbatim>\<open>r\<close>.\<close>

definition await :: "'c call \<Rightarrow> error option \<Rightarrow> ('c, unit) prog" where
  "await c r =
     then_prog (emit (Await c))
       (case r of Some e \<Rightarrow> raise e | None \<Rightarrow> emit (Resume c))"

definition await_value :: "'c call \<Rightarrow> error + 'a \<Rightarrow> ('c, 'a) prog" where
  "await_value c r =
     then_prog (emit (Await c))
       (case r of Inl e \<Rightarrow> raise e | Inr x \<Rightarrow> then_prog (emit (Resume c)) (returns x))"

subsection \<open>The collaborators' calls\<close>

definition startswith :: "string \<Rightarrow> string \<Rightarrow> bool" where
  "startswith s p = (take (length p) s = p)"

text \<open>\<^verbatim>\<open>module.instance()\<close>: the singleton of the class, or the exception of its creation.\<close>

definition instance_of :: "('app, 'c) env \<Rightarrow> module \<Rightarrow> ('c, unit) prog" where
  "instance_of env m =
     (case module_instance env m of Some e \<Rightarrow> raise e | None \<Rightarrow> emit (Instance m))"

text \<open>
  Modelled from the spec: the creation of the port manager, whose class is defined in
  \<^verbatim>\<open>gns3server/compute/port_manager.py\<close> and not in \<^verbatim>\<open>tasks.py\<close>. The spec has the
  allocator as a process-wide singleton that holds no port until one is acquired: a new
  object, with no port held, becomes the singleton.
\<close>

definition new_port_manager :: "world \<Rightarrow> world" where
  "new_port_manager w =
     w\<lparr>pm_instance := Some (next_addr w),
       next_addr := Suc (next_addr w),
       store := (store w)(next_addr w := \<lparr>tcp_ports = {}, udp_ports = {}\<rparr>)\<rparr>"

text \<open>
  Modelled from the spec: \<^verbatim>\<open>PortManager.instance()\<close>, of the same class. The spec has the
  accessor of a process-wide singleton, and the test fixtures reset it by
  \<^verbatim>\<open>PortManager._instance = None\<close>: the accessor returns the object held in
  \<^verbatim>\<open>_instance\<close>, creating it when there is none.
\<close>

definition PortManager_instance :: "('c, nat) prog" where
  "PortManager_instance w =
     (case pm_instance w of
        Some a \<Rightarrow> (Inr a, [], w)
      | None \<Rightarrow> (Inr (next_addr w), [], new_port_manager w))"

text \<open>
  The address \<^verbatim>\<open>PortManager.instance()\<close> answers in a state, and the state it leaves.
\<close>

definition the_pm :: "world \<Rightarrow> nat" where
  "the_pm w = (case pm_instance w of Some a \<Rightarrow> a | None \<Rightarrow> next_addr w)"

definition after_instance :: "world \<Rightarrow> world" where
  "after_instance w = (case pm_instance w of Some a \<Rightarrow> w | None \<Rightarrow> new_port_manager w)"

text \<open>\<^verbatim>\<open>m.port_manager = pm\<close>\<close>

definition set_port_manager :: "module \<Rightarrow> nat \<Rightarrow> ('c, unit) prog" where
  "set_port_manager m a w =
     (Inr (), [Set_port_manager m a], w\<lparr>port_manager := (port_manager w)(m := Some a)\<rparr>)"

text \<open>\<^verbatim>\<open>PortManager.instance().tcp_ports\<close> and \<^verbatim>\<open>.udp_ports\<close>\<close>

definition read_ports :: "protocol \<Rightarrow> ('c, nat set) prog" where
  "read_ports p =
     bind_prog PortManager_instance (\<lambda>a w.
       (Inr (case p of TCP \<Rightarrow> tcp_ports (store w a) | UDP \<Rightarrow> udp_ports (store w a)),
        [Read_ports p a], w))"

text \<open>\<^verbatim>\<open>await m.unload()\<close>: the hook works on the store of port managers.\<close>

definition await_unload :: "('app, 'c) env \<Rightarrow> module \<Rightarrow> ('c, unit) prog" where
  "await_unload env m w =
     (case unload env m (store w) of
        Inl e \<Rightarrow> (Inl e, [Await (Unload m)], w)
      | Inr s \<Rightarrow> (Inr (), [Await (Unload m), Resume (Unload m)], w\<lparr>store := s\<rparr>))"

subsection \<open>create_startup_handler\<close>

text \<open>The callback of the tick: \<^verbatim>\<open>def wakeup(): loop.call_later(0.5, wakeup)\<close>\<close>

definition wakeup :: "('c, unit) prog" where
  "wakeup = emit (Call_later (1 / 2) Wakeup)"

text \<open>The loop \<^verbatim>\<open>for module in MODULES\<close> of \<^verbatim>\<open>start_app\<close>.\<close>

fun load_modules :: "('app, 'c) env \<Rightarrow> module list \<Rightarrow> ('c, unit) prog" where
  "load_modules env [] = returns ()"
| "load_modules env (m # ms) =
     then_prog (emit (Log DEBUG (Loading_module (name_of m))))
    (then_prog (instance_of env m)
    (bind_prog PortManager_instance (\<lambda>pm.
     then_prog (set_port_manager m pm)
    (load_modules env ms))))"

definition start_app :: "('app, 'c) env \<Rightarrow> 'app \<Rightarrow> ('c, unit) prog" where
  "start_app env app =
     then_prog (emit (Set_level ''asyncio'' ERROR))
    (then_prog (when_prog (startswith (platform env) ''win'')
                  (emit (Call_later (1 / 2) Wakeup)))
    (then_prog (when_prog (effective_level env = DEBUG) (emit (Set_debug True)))
    (then_prog (await Connect_to_db (connect_to_db env app))
    (bind_prog (await_value Get_computes (get_computes env app)) (\<lambda>computes.
     then_prog (await (Controller_start computes) (controller_start env computes))
    (then_prog (instance_of env Qemu)
    (then_prog (emit (Ensure_future List_images))
    (load_modules env (MODULES env)))))))))"

definition create_startup_handler ::
  "('app, 'c) env \<Rightarrow> 'app \<Rightarrow> ('c, ('c, unit) prog) prog" where
  "create_startup_handler env app = returns (start_app env app)"

subsection \<open>create_shutdown_handler\<close>

text \<open>The loop \<^verbatim>\<open>for module in MODULES\<close> of \<^verbatim>\<open>shutdown_handler\<close>.\<close>

fun unload_modules :: "('app, 'c) env \<Rightarrow> module list \<Rightarrow> ('c, unit) prog" where
  "unload_modules env [] = returns ()"
| "unload_modules env (m # ms) =
     then_prog (emit (Log DEBUG (Unloading_module (name_of m))))
    (then_prog (instance_of env m)
    (then_prog (await_unload env m)
    (unload_modules env ms)))"

text \<open>
  \<^verbatim>\<open>if PortManager.instance().tcp_ports: log.warning(f"... {PortManager.instance().tcp_ports}")\<close>
  and the same for UDP: the set is read for the test and read again for the message.
\<close>

definition warn_ports :: "protocol \<Rightarrow> ('c, unit) prog" where
  "warn_ports p =
     bind_prog (read_ports p) (\<lambda>held.
       if held \<noteq> {} then
         bind_prog (read_ports p) (\<lambda>shown.
           emit (Log WARNING (case p of TCP \<Rightarrow> TCP_ports_are_still_used shown
                                       | UDP \<Rightarrow> UDP_ports_are_still_used shown)))
       else returns ())"

definition shutdown_handler :: "('app, 'c) env \<Rightarrow> 'app \<Rightarrow> ('c, unit) prog" where
  "shutdown_handler env app =
     then_prog (await Close_session (close_session env))
    (then_prog (await Controller_stop (controller_stop env))
    (then_prog (unload_modules env (MODULES env))
    (then_prog (warn_ports TCP)
    (warn_ports UDP))))"

definition create_shutdown_handler ::
  "('app, 'c) env \<Rightarrow> 'app \<Rightarrow> ('c, ('c, unit) prog) prog" where
  "create_shutdown_handler env app = returns (shutdown_handler env app)"

subsection \<open>Reading a run\<close>

text \<open>The modules given a port manager in a run, in the order of the assignments.\<close>

fun injected :: "'c event list \<Rightarrow> module list" where
  "injected [] = []"
| "injected (Set_port_manager m a # t) = m # injected t"
| "injected (ev # t) = injected t"

text \<open>The modules whose unload hook a run called, in the order of the calls.\<close>

fun unloaded :: "'c event list \<Rightarrow> module list" where
  "unloaded [] = []"
| "unloaded (Await (Unload m) # t) = m # unloaded t"
| "unloaded (ev # t) = unloaded t"

text \<open>
  The ports of a protocol held in a state: those of the port manager singleton; none when
  the singleton does not exist yet, since the accessor then creates it with none.
\<close>

definition held :: "protocol \<Rightarrow> world \<Rightarrow> nat set" where
  "held p w =
     (case pm_instance w of
        None \<Rightarrow> {}
      | Some a \<Rightarrow> (case p of TCP \<Rightarrow> tcp_ports (store w a) | UDP \<Rightarrow> udp_ports (store w a)))"

definition still_used :: "protocol \<Rightarrow> nat set \<Rightarrow> message" where
  "still_used p s = (case p of TCP \<Rightarrow> TCP_ports_are_still_used s
                             | UDP \<Rightarrow> UDP_ports_are_still_used s)"

text \<open>
  \<^verbatim>\<open>preceded a Q t\<close>: in the run \<^verbatim>\<open>t\<close>, no event satisfying \<^verbatim>\<open>Q\<close> occurs before the
  first occurrence of the event \<^verbatim>\<open>a\<close>.
\<close>

fun preceded :: "'a \<Rightarrow> ('a \<Rightarrow> bool) \<Rightarrow> 'a list \<Rightarrow> bool" where
  "preceded a Q [] = True"
| "preceded a Q (x # xs) = (x = a \<or> (\<not> Q x \<and> preceded a Q xs))"

subsection \<open>Concrete runs\<close>

text \<open>
  A process that has created no port manager yet, and one whose port manager holds TCP port
  5000 and UDP port 6000.
\<close>

definition world0 :: world where
  "world0 = \<lparr>pm_instance = None, next_addr = 0,
             store = (\<lambda>a. \<lparr>tcp_ports = {}, udp_ports = {}\<rparr>),
             port_manager = (\<lambda>m. None)\<rparr>"

definition world_leak :: world where
  "world_leak = \<lparr>pm_instance = Some 0, next_addr = 1,
                 store = (\<lambda>a. \<lparr>tcp_ports = {5000}, udp_ports = {6000}\<rparr>),
                 port_manager = (\<lambda>m. Some 0)\<rparr>"

text \<open>Two modules on Linux, every collaborator answering normally; then one failure each.\<close>

definition env_ok :: "(unit, string) env" where
  "env_ok = \<lparr>platform = ''linux'', effective_level = INFO,
             MODULES = [Module ''VPCS'', Module ''Dynamips''],
             connect_to_db = (\<lambda>app. None),
             get_computes = (\<lambda>app. Inr [''local'']),
             controller_start = (\<lambda>cs. None),
             module_instance = (\<lambda>m. None),
             list_images = Inr [],
             close_session = None,
             controller_stop = None,
             unload = (\<lambda>m s. Inr s)\<rparr>"

definition env_win :: "(unit, string) env" where
  "env_win = env_ok\<lparr>platform := ''win32''\<rparr>"

definition env_db_down :: "(unit, string) env" where
  "env_db_down = env_ok\<lparr>connect_to_db := (\<lambda>app. Some (Error ''database''))\<rparr>"

definition env_no_computes :: "(unit, string) env" where
  "env_no_computes = env_ok\<lparr>get_computes := (\<lambda>app. Inl (Error ''computes''))\<rparr>"

definition env_start_fails :: "(unit, string) env" where
  "env_start_fails = env_ok\<lparr>controller_start := (\<lambda>cs. Some (Error ''start''))\<rparr>"

definition env_no_qemu :: "(unit, string) env" where
  "env_no_qemu = env_ok\<lparr>module_instance :=
     (\<lambda>m. if m = Module ''Qemu'' then Some (Error ''qemu'') else None)\<rparr>"

definition env_no_vpcs :: "(unit, string) env" where
  "env_no_vpcs = env_ok\<lparr>module_instance :=
     (\<lambda>m. if m = Module ''VPCS'' then Some (Error ''vpcs'') else None)\<rparr>"

definition env_close_fails :: "(unit, string) env" where
  "env_close_fails = env_ok\<lparr>close_session := Some (Error ''session'')\<rparr>"

definition env_stop_fails :: "(unit, string) env" where
  "env_stop_fails = env_ok\<lparr>controller_stop := Some (Error ''controller'')\<rparr>"

definition env_unload_fails :: "(unit, string) env" where
  "env_unload_fails = env_ok\<lparr>unload :=
     (\<lambda>m s. if m = Module ''VPCS'' then Inl (Error ''unload'') else Inr s)\<rparr>"

text \<open>Unload hooks that release every UDP port.\<close>

definition env_release :: "(unit, string) env" where
  "env_release = env_ok\<lparr>unload := (\<lambda>m s. Inr (\<lambda>a. (s a)\<lparr>udp_ports := {}\<rparr>))\<rparr>"

definition env_images_fail :: "(unit, string) env" where
  "env_images_fail = env_ok\<lparr>list_images := Inl (Error ''images'')\<rparr>"

section \<open>Properties\<close>

subsection \<open>Sequencing\<close>

lemmas prog_defs = bind_prog_def then_prog_def when_prog_def returns_def raise_def emit_def
  await_def await_value_def instance_of_def set_port_manager_def

lemma then_returns [simp]: "then_prog (returns ()) q = q"
  by (rule ext) (simp add: prog_defs split: prod.splits sum.splits)

lemma then_prog_pair:
  "then_prog p q w =
     (case p w of
        (Inl e, t, w') \<Rightarrow> (Inl e, t, w')
      | (Inr x, t, w') \<Rightarrow> (case q w' of (r, t', w'') \<Rightarrow> (r, t @ t', w'')))"
  by (simp add: then_prog_def bind_prog_def)

lemma then_prog_assoc:
  "then_prog (then_prog p q) r = then_prog p (then_prog q r)"
  by (rule ext) (simp add: then_prog_pair split: prod.splits sum.splits)

lemma then_bind_assoc:
  "then_prog (bind_prog p f) r = bind_prog p (\<lambda>x. then_prog (f x) r)"
  by (rule ext) (simp add: then_prog_def bind_prog_def split: prod.splits sum.splits)

subsection \<open>The port manager singleton\<close>

lemma PortManager_instance_eq:
  "PortManager_instance w = (Inr (the_pm w), [], after_instance w)"
  by (simp add: PortManager_instance_def the_pm_def after_instance_def split: option.splits)

lemma the_pm_after_instance [simp]: "the_pm (after_instance w) = the_pm w"
  by (simp add: the_pm_def after_instance_def new_port_manager_def split: option.splits)

lemma pm_instance_after_instance [simp]: "pm_instance (after_instance w) = Some (the_pm w)"
  by (simp add: the_pm_def after_instance_def new_port_manager_def split: option.splits)

lemma after_instance_idem [simp]: "after_instance (after_instance w) = after_instance w"
  by (simp add: after_instance_def new_port_manager_def split: option.splits)

lemma port_manager_after_instance [simp]: "port_manager (after_instance w) = port_manager w"
  by (simp add: after_instance_def new_port_manager_def split: option.splits)

lemma the_pm_port_manager_update [simp]: "the_pm (w\<lparr>port_manager := f\<rparr>) = the_pm w"
  by (simp add: the_pm_def split: option.splits)

lemma after_instance_port_manager_update [simp]:
  "after_instance (w\<lparr>port_manager := f\<rparr>) = (after_instance w)\<lparr>port_manager := f\<rparr>"
  by (simp add: after_instance_def new_port_manager_def split: option.splits)

lemma the_pm_store_update [simp]: "the_pm (w\<lparr>store := s\<rparr>) = the_pm w"
  by (simp add: the_pm_def split: option.splits)

subsection \<open>The loops over the modules\<close>

lemma load_modules_append:
  "load_modules env (xs @ ys) = then_prog (load_modules env xs) (load_modules env ys)"
  by (induction xs) (simp_all add: then_prog_assoc then_bind_assoc)

lemma unload_modules_append:
  "unload_modules env (xs @ ys) = then_prog (unload_modules env xs) (unload_modules env ys)"
  by (induction xs) (simp_all add: then_prog_assoc)

lemma load_modules_Nil: "load_modules env [] w = (Inr (), [], w)"
  by (simp add: returns_def)

lemma unload_modules_Nil: "unload_modules env [] w = (Inr (), [], w)"
  by (simp add: returns_def)

lemma load_modules_Cons:
  "load_modules env (m # ms) w =
     (case module_instance env m of
        Some e \<Rightarrow> (Inl e, [Log DEBUG (Loading_module (name_of m))], w)
      | None \<Rightarrow>
         (case load_modules env ms
                 ((after_instance w)\<lparr>port_manager := (port_manager w)(m := Some (the_pm w))\<rparr>) of
            (r, t, w') \<Rightarrow>
              (r, [Log DEBUG (Loading_module (name_of m)), Instance m,
                   Set_port_manager m (the_pm w)] @ t, w')))"
  by (simp add: prog_defs PortManager_instance_eq split: option.splits prod.splits sum.splits)

lemma unload_modules_Cons:
  "unload_modules env (m # ms) w =
     (case module_instance env m of
        Some e \<Rightarrow> (Inl e, [Log DEBUG (Unloading_module (name_of m))], w)
      | None \<Rightarrow>
         (case unload env m (store w) of
            Inl e \<Rightarrow> (Inl e, [Log DEBUG (Unloading_module (name_of m)), Instance m,
                              Await (Unload m)], w)
          | Inr s \<Rightarrow>
             (case unload_modules env ms (w\<lparr>store := s\<rparr>) of
                (r, t, w') \<Rightarrow>
                  (r, [Log DEBUG (Unloading_module (name_of m)), Instance m,
                       Await (Unload m), Resume (Unload m)] @ t, w'))))"
  by (simp add: prog_defs await_unload_def split: option.splits prod.splits sum.splits)

declare load_modules.simps [simp del] unload_modules.simps [simp del]

lemma load_modules_events_subset:
  "set (events (load_modules env ms w)) \<subseteq>
     (\<lambda>m. Log DEBUG (Loading_module (name_of m))) ` set ms \<union> Instance ` set ms \<union>
     (\<lambda>m. Set_port_manager m (the_pm w)) ` set ms"
proof (induction ms arbitrary: w)
  case Nil
  show ?case by (simp add: load_modules_Nil events_def)
next
  case (Cons m ms)
  let ?w1 = "(after_instance w)\<lparr>port_manager := (port_manager w)(m := Some (the_pm w))\<rparr>"
  show ?case
  proof (cases "module_instance env m")
    case (Some e)
    then show ?thesis by (simp add: load_modules_Cons events_def)
  next
    case None
    have "set (events (load_modules env (m # ms) w)) =
            {Log DEBUG (Loading_module (name_of m)), Instance m, Set_port_manager m (the_pm w)}
            \<union> set (events (load_modules env ms ?w1))"
      using None by (simp add: load_modules_Cons events_def split: prod.splits)
    with Cons.IH [of ?w1] show ?thesis by auto
  qed
qed

lemma unload_modules_events_subset:
  "set (events (unload_modules env ms w)) \<subseteq>
     (\<lambda>m. Log DEBUG (Unloading_module (name_of m))) ` set ms \<union> Instance ` set ms \<union>
     (\<lambda>m. Await (Unload m)) ` set ms \<union> (\<lambda>m. Resume (Unload m)) ` set ms"
proof (induction ms arbitrary: w)
  case Nil
  show ?case by (simp add: unload_modules_Nil events_def)
next
  case (Cons m ms)
  show ?case
  proof (cases "module_instance env m")
    case (Some e)
    then show ?thesis by (simp add: unload_modules_Cons events_def)
  next
    case None
    show ?thesis
    proof (cases "unload env m (store w)")
      case (Inl e)
      then show ?thesis using None by (simp add: unload_modules_Cons events_def)
    next
      case (Inr s)
      have "set (events (unload_modules env (m # ms) w)) =
              {Log DEBUG (Unloading_module (name_of m)), Instance m, Await (Unload m),
               Resume (Unload m)} \<union> set (events (unload_modules env ms (w\<lparr>store := s\<rparr>)))"
        using None Inr by (simp add: unload_modules_Cons events_def split: prod.splits)
      with Cons.IH [of "w\<lparr>store := s\<rparr>"] show ?thesis by auto
    qed
  qed
qed

lemma load_modules_outcome:
  "(outcome (load_modules env ms w) = Inr ()) = (\<forall>m\<in>set ms. module_instance env m = None)"
proof (induction ms arbitrary: w)
  case Nil
  show ?case by (simp add: load_modules_Nil outcome_def)
next
  case (Cons m ms)
  show ?case
  proof (cases "module_instance env m")
    case (Some e)
    then show ?thesis by (simp add: load_modules_Cons outcome_def)
  next
    case None
    let ?w1 = "(after_instance w)\<lparr>port_manager := (port_manager w)(m := Some (the_pm w))\<rparr>"
    show ?thesis
      using None Cons.IH [of ?w1]
      by (cases "load_modules env ms ?w1") (simp add: load_modules_Cons outcome_def)
  qed
qed

lemma load_modules_ok:
  assumes "\<forall>m\<in>set ms. module_instance env m = None"
  shows "load_modules env ms w =
     (Inr (),
      concat (map (\<lambda>m. [Log DEBUG (Loading_module (name_of m)), Instance m,
                         Set_port_manager m (the_pm w)]) ms),
      (if ms = [] then w
       else (after_instance w)\<lparr>port_manager :=
              (\<lambda>m. if m \<in> set ms then Some (the_pm w) else port_manager w m)\<rparr>))"
  using assms
proof (induction ms arbitrary: w rule: rev_induct)
  case Nil
  show ?case by (simp add: load_modules_Nil)
next
  case (snoc m ms)
  then have ok: "\<forall>x\<in>set ms. module_instance env x = None" and m: "module_instance env m = None"
    by simp_all
  have last: "load_modules env [m] w' =
      (Inr (), [Log DEBUG (Loading_module (name_of m)), Instance m, Set_port_manager m (the_pm w')],
       (after_instance w')\<lparr>port_manager := (port_manager w')(m := Some (the_pm w'))\<rparr>)" for w'
    using m by (simp add: load_modules_Cons load_modules_Nil)
  show ?case
  proof (cases "ms = []")
    case True
    then show ?thesis using last [of w] by (simp add: fun_upd_def)
  next
    case False
    then show ?thesis
      using snoc.IH [OF ok, of w] last
      by (auto simp add: load_modules_append then_prog_pair fun_upd_def intro!: world.equality)
  qed
qed

text \<open>The loop stops at the first module whose singleton cannot be obtained.\<close>

lemma load_modules_stops:
  assumes "load_modules env pre w = (Inr (), t, w')" and "module_instance env m = Some e"
  shows "load_modules env (pre @ m # post) w =
           (Inl e, t @ [Log DEBUG (Loading_module (name_of m))], w')"
  using assms by (simp add: load_modules_append then_prog_pair load_modules_Cons)

lemma unload_modules_stops_instance:
  assumes "unload_modules env pre w = (Inr (), t, w')" and "module_instance env m = Some e"
  shows "unload_modules env (pre @ m # post) w =
           (Inl e, t @ [Log DEBUG (Unloading_module (name_of m))], w')"
  using assms by (simp add: unload_modules_append then_prog_pair unload_modules_Cons)

lemma unload_modules_stops:
  assumes "unload_modules env pre w = (Inr (), t, w')" and "module_instance env m = None"
    and "unload env m (store w') = Inl e"
  shows "unload_modules env (pre @ m # post) w =
           (Inl e, t @ [Log DEBUG (Unloading_module (name_of m)), Instance m,
                        Await (Unload m)], w')"
  using assms by (simp add: unload_modules_append then_prog_pair unload_modules_Cons)

subsection \<open>The handlers, step by step\<close>

lemma start_app_eq:
  "start_app env app w =
     (let pre = Set_level ''asyncio'' ERROR #
                (if startswith (platform env) ''win'' then [Call_later (1 / 2) Wakeup] else []) @
                (if effective_level env = DEBUG then [Set_debug True] else [])
      in case connect_to_db env app of
           Some e \<Rightarrow> (Inl e, pre @ [Await Connect_to_db], w)
         | None \<Rightarrow>
       (case get_computes env app of
           Inl e \<Rightarrow> (Inl e, pre @ [Await Connect_to_db, Resume Connect_to_db,
                                     Await Get_computes], w)
         | Inr cs \<Rightarrow>
       (case controller_start env cs of
           Some e \<Rightarrow> (Inl e, pre @ [Await Connect_to_db, Resume Connect_to_db,
                                      Await Get_computes, Resume Get_computes,
                                      Await (Controller_start cs)], w)
         | None \<Rightarrow>
       (case module_instance env Qemu of
           Some e \<Rightarrow> (Inl e, pre @ [Await Connect_to_db, Resume Connect_to_db,
                                      Await Get_computes, Resume Get_computes,
                                      Await (Controller_start cs),
                                      Resume (Controller_start cs)], w)
         | None \<Rightarrow>
       (case load_modules env (MODULES env) w of
           (r, t, w') \<Rightarrow> (r, pre @ [Await Connect_to_db, Resume Connect_to_db,
                                      Await Get_computes, Resume Get_computes,
                                      Await (Controller_start cs),
                                      Resume (Controller_start cs),
                                      Instance Qemu, Ensure_future List_images] @ t, w'))))))"
  by (simp add: start_app_def prog_defs Let_def split: option.splits sum.splits prod.splits)

lemma read_ports_eq:
  "read_ports p w = (Inr (held p (after_instance w)), [Read_ports p (the_pm w)], after_instance w)"
  by (simp add: read_ports_def bind_prog_def PortManager_instance_eq held_def)

lemma held_after_instance [simp]: "held p (after_instance w) = held p w"
  by (simp add: held_def after_instance_def new_port_manager_def split: option.splits protocol.splits)

lemma warn_ports_eq:
  "warn_ports p w =
     (Inr (),
      (if held p w = {} then [Read_ports p (the_pm w)]
       else [Read_ports p (the_pm w), Read_ports p (the_pm w),
             Log WARNING (still_used p (held p w))]),
      after_instance w)"
  by (simp add: warn_ports_def bind_prog_def read_ports_eq returns_def emit_def still_used_def)

lemma shutdown_handler_eq:
  "shutdown_handler env app w =
     (case close_session env of
        Some e \<Rightarrow> (Inl e, [Await Close_session], w)
      | None \<Rightarrow>
     (case controller_stop env of
        Some e \<Rightarrow> (Inl e, [Await Close_session, Resume Close_session,
                           Await Controller_stop], w)
      | None \<Rightarrow>
     (case unload_modules env (MODULES env) w of
        (Inl e, t, w') \<Rightarrow>
          (Inl e, [Await Close_session, Resume Close_session, Await Controller_stop,
                   Resume Controller_stop] @ t, w')
      | (Inr u, t, w') \<Rightarrow>
          (Inr (), [Await Close_session, Resume Close_session, Await Controller_stop,
                    Resume Controller_stop] @ t @
                   (if held TCP w' = {} then [Read_ports TCP (the_pm w')]
                    else [Read_ports TCP (the_pm w'), Read_ports TCP (the_pm w'),
                          Log WARNING (still_used TCP (held TCP w'))]) @
                   (if held UDP w' = {} then [Read_ports UDP (the_pm w')]
                    else [Read_ports UDP (the_pm w'), Read_ports UDP (the_pm w'),
                          Log WARNING (still_used UDP (held UDP w'))]),
           after_instance w'))))"
  by (simp add: shutdown_handler_def then_prog_pair await_def emit_def raise_def warn_ports_eq
        split: option.splits sum.splits prod.splits)

subsection \<open>Order of events in a run\<close>

lemma precededD:
  "preceded a Q t \<Longrightarrow> \<not> Q a \<Longrightarrow> t = pre @ x # post \<Longrightarrow> Q x \<Longrightarrow> a \<in> set pre"
proof (induction t arbitrary: pre)
  case Nil
  then show ?case by simp
next
  case (Cons y t)
  show ?case
  proof (cases pre)
    case Nil
    with Cons.prems show ?thesis by auto
  next
    case (Cons z pre')
    with Cons.prems Cons.IH [of pre'] show ?thesis by auto
  qed
qed

lemma preceded_none: "\<forall>x\<in>set t. \<not> Q x \<Longrightarrow> preceded a Q t"
  by (induction t) auto

lemma load_modules_no_await:
  "load_modules env ms w = (r, t, w') \<Longrightarrow> Await c \<notin> set t \<and> Resume c \<notin> set t"
  using load_modules_events_subset [of env ms w] by (auto simp add: events_def)

lemma start_app_connect_first:
  "preceded (Resume Connect_to_db) (\<lambda>x. \<exists>c. x = Await c \<and> c \<noteq> Connect_to_db)
     (events (start_app env app w))"
  by (auto simp add: start_app_eq events_def Let_def
        split: option.splits sum.splits prod.splits)

lemma start_app_computes_first:
  "preceded (Resume Get_computes) (\<lambda>x. \<exists>cs. x = Await (Controller_start cs))
     (events (start_app env app w))"
  by (auto simp add: start_app_eq events_def Let_def
        split: option.splits sum.splits prod.splits)


lemma load_modules_instance_first:
  "preceded (Instance m) (\<lambda>x. \<exists>a. x = Set_port_manager m a) (events (load_modules env ms w))"
proof (induction ms arbitrary: w)
  case Nil
  show ?case by (simp add: load_modules_Nil events_def)
next
  case (Cons m' ms)
  let ?w1 = "(after_instance w)\<lparr>port_manager := (port_manager w)(m' := Some (the_pm w))\<rparr>"
  show ?case
    using Cons.IH [of ?w1]
    by (cases "load_modules env ms ?w1")
       (auto simp add: load_modules_Cons events_def split: option.splits)
qed

lemma start_app_instance_first:
  "preceded (Instance m) (\<lambda>x. \<exists>a. x = Set_port_manager m a) (events (start_app env app w))"
  using load_modules_instance_first [of m env "MODULES env" w]
  by (auto simp add: start_app_eq events_def Let_def
        split: option.splits sum.splits prod.splits)

lemma start_app_controller_first:
  "get_computes env app = Inr cs \<Longrightarrow>
   preceded (Resume (Controller_start cs))
     (\<lambda>x. \<exists>m a. x = Instance m \<or> x = Set_port_manager m a) (events (start_app env app w))"
  by (auto simp add: start_app_eq events_def Let_def
        split: option.splits sum.splits prod.splits)

lemma start_app_needs_computes:
  "get_computes env app = Inl e \<Longrightarrow> x \<in> set (events (start_app env app w)) \<Longrightarrow>
   x \<noteq> Instance m \<and> x \<noteq> Set_port_manager m a \<and> x \<noteq> Await (Controller_start cs)"
  by (auto simp add: start_app_eq events_def Let_def
        split: option.splits sum.splits prod.splits if_splits)

lemma start_app_start_args:
  "Await (Controller_start cs) \<in> set (events (start_app env app w)) \<Longrightarrow>
   get_computes env app = Inr cs"
  by (auto simp add: start_app_eq events_def Let_def dest: load_modules_no_await
        split: option.splits sum.splits prod.splits if_splits)

lemma start_app_resume_after_await:
  "preceded (Await c) (\<lambda>x. x = Resume c) (events (start_app env app w))"
  by (auto simp add: start_app_eq events_def Let_def dest: load_modules_no_await
        intro!: preceded_none
        split: option.splits sum.splits prod.splits)

subsection \<open>The order of the modules in a run\<close>

lemma injected_append: "injected (xs @ ys) = injected xs @ injected ys"
  by (induction xs rule: injected.induct) simp_all

lemma unloaded_append: "unloaded (xs @ ys) = unloaded xs @ unloaded ys"
  by (induction xs rule: unloaded.induct) simp_all

lemma injected_load_events:
  "injected (concat (map (\<lambda>m. [Log DEBUG (Loading_module (name_of m)), Instance m,
                                Set_port_manager m a]) ms)) = ms"
  by (induction ms) simp_all

lemma injected_load_prefix:
  "\<exists>k. injected (events (load_modules env ms w)) = take k ms"
proof (induction ms arbitrary: w)
  case Nil
  show ?case by (simp add: load_modules_Nil events_def)
next
  case (Cons m ms)
  let ?w1 = "(after_instance w)\<lparr>port_manager := (port_manager w)(m := Some (the_pm w))\<rparr>"
  show ?case
  proof (cases "module_instance env m")
    case (Some e)
    then have "injected (events (load_modules env (m # ms) w)) = take 0 (m # ms)"
      by (simp add: load_modules_Cons events_def)
    then show ?thesis by blast
  next
    case None
    from Cons.IH [of ?w1] obtain k
      where k: "injected (events (load_modules env ms ?w1)) = take k ms" by blast
    have "injected (events (load_modules env (m # ms) w)) = take (Suc k) (m # ms)"
      using None k by (cases "load_modules env ms ?w1") (simp add: load_modules_Cons events_def)
    then show ?thesis by blast
  qed
qed

lemma unloaded_unload_prefix:
  "\<exists>k. unloaded (events (unload_modules env ms w)) = take k ms"
proof (induction ms arbitrary: w)
  case Nil
  show ?case by (simp add: unload_modules_Nil events_def)
next
  case (Cons m ms)
  show ?case
  proof (cases "module_instance env m")
    case (Some e)
    then have "unloaded (events (unload_modules env (m # ms) w)) = take 0 (m # ms)"
      by (simp add: unload_modules_Cons events_def)
    then show ?thesis by blast
  next
    case None
    show ?thesis
    proof (cases "unload env m (store w)")
      case (Inl e)
      then have "unloaded (events (unload_modules env (m # ms) w)) = take 1 (m # ms)"
        using None by (simp add: unload_modules_Cons events_def)
      then show ?thesis by blast
    next
      case (Inr s)
      from Cons.IH [of "w\<lparr>store := s\<rparr>"] obtain k
        where k: "unloaded (events (unload_modules env ms (w\<lparr>store := s\<rparr>))) = take k ms"
        by blast
      have "unloaded (events (unload_modules env (m # ms) w)) = take (Suc k) (m # ms)"
        using None Inr k
        by (cases "unload_modules env ms (w\<lparr>store := s\<rparr>)")
           (simp add: unload_modules_Cons events_def)
      then show ?thesis by blast
    qed
  qed
qed

lemma unloaded_unload_all:
  "outcome (unload_modules env ms w) = Inr () \<Longrightarrow>
   unloaded (events (unload_modules env ms w)) = ms"
proof (induction ms arbitrary: w)
  case Nil
  show ?case by (simp add: unload_modules_Nil events_def)
next
  case (Cons m ms)
  show ?case
  proof (cases "module_instance env m")
    case (Some e)
    with Cons.prems show ?thesis by (simp add: unload_modules_Cons outcome_def)
  next
    case None
    show ?thesis
    proof (cases "unload env m (store w)")
      case (Inl e)
      with Cons.prems None show ?thesis by (simp add: unload_modules_Cons outcome_def)
    next
      case (Inr s)
      with Cons.prems None Cons.IH [of "w\<lparr>store := s\<rparr>"] show ?thesis
        by (cases "unload_modules env ms (w\<lparr>store := s\<rparr>)")
           (simp add: unload_modules_Cons outcome_def events_def)
    qed
  qed
qed

lemma start_app_injected:
  "\<exists>k. injected (events (start_app env app w)) = take k (MODULES env)"
proof -
  from injected_load_prefix [of env "MODULES env" w] obtain k
    where k: "injected (events (load_modules env (MODULES env) w)) = take k (MODULES env)"
    by blast
  have "injected (events (start_app env app w)) = take k (MODULES env) \<or>
        injected (events (start_app env app w)) = take 0 (MODULES env)"
    using k
    by (cases "load_modules env (MODULES env) w")
       (simp add: start_app_eq events_def Let_def injected_append
          split: option.splits sum.splits)
  then show ?thesis by blast
qed

lemma start_app_injected_all:
  assumes "outcome (start_app env app w) = Inr ()"
  shows "injected (events (start_app env app w)) = MODULES env"
proof -
  from assms have ok: "\<forall>m\<in>set (MODULES env). module_instance env m = None"
    using load_modules_outcome [of env "MODULES env" w]
    by (cases "load_modules env (MODULES env) w")
       (simp add: start_app_eq outcome_def Let_def split: option.splits sum.splits)
  from assms show ?thesis
    by (simp add: start_app_eq load_modules_ok [OF ok] outcome_def events_def Let_def
          injected_append injected_load_events split: option.splits sum.splits)
qed

lemma shutdown_unloaded:
  "\<exists>k. unloaded (events (shutdown_handler env app w)) = take k (MODULES env)"
proof -
  from unloaded_unload_prefix [of env "MODULES env" w] obtain k
    where k: "unloaded (events (unload_modules env (MODULES env) w)) = take k (MODULES env)"
    by blast
  have "unloaded (events (shutdown_handler env app w)) = take k (MODULES env) \<or>
        unloaded (events (shutdown_handler env app w)) = take 0 (MODULES env)"
    using k
    by (cases "unload_modules env (MODULES env) w")
       (simp add: shutdown_handler_eq events_def unloaded_append
          split: option.splits sum.splits)
  then show ?thesis by blast
qed

lemma shutdown_unloaded_all:
  assumes "outcome (shutdown_handler env app w) = Inr ()"
  shows "unloaded (events (shutdown_handler env app w)) = MODULES env"
proof -
  obtain r t w' where u: "unload_modules env (MODULES env) w = (r, t, w')"
    by (cases "unload_modules env (MODULES env) w")
  with assms have r: "r = Inr ()"
    by (simp add: shutdown_handler_eq outcome_def split: option.splits sum.splits)
  with u unloaded_unload_all [of env "MODULES env" w] have "unloaded t = MODULES env"
    by (simp add: outcome_def events_def)
  with assms u r show ?thesis
    by (simp add: shutdown_handler_eq outcome_def events_def unloaded_append
          split: option.splits sum.splits)
qed

subsection \<open>What the startup handler gives the modules\<close>


lemma load_modules_log_debug:
  "Log l msg \<in> set (events (load_modules env ms w)) \<Longrightarrow> l = DEBUG"
  using load_modules_events_subset [of env ms w] by auto



lemma start_app_log_debug:
  assumes "Log l msg \<in> set (events (start_app env app w))"
  shows "l = DEBUG"
proof -
  from assms have "Log l msg \<in> set (events (load_modules env (MODULES env) w))"
    by (auto simp add: start_app_eq events_def Let_def
          split: option.splits sum.splits prod.splits if_splits)
  then show ?thesis by (rule load_modules_log_debug)
qed

lemma start_app_returns_iff:
  "(outcome (start_app env app w) = Inr ()) =
     (connect_to_db env app = None \<and>
      (\<exists>cs. get_computes env app = Inr cs \<and> controller_start env cs = None) \<and>
      module_instance env Qemu = None \<and>
      (\<forall>m\<in>set (MODULES env). module_instance env m = None))"
  using load_modules_outcome [of env "MODULES env" w]
  by (cases "load_modules env (MODULES env) w")
     (auto simp add: start_app_eq outcome_def Let_def split: option.splits sum.splits)




subsection \<open>What the shutdown handler does after the unloads\<close>

lemma unload_modules_frame:
  "unload_modules env ms w = (r, t, w') \<Longrightarrow>
   pm_instance w' = pm_instance w \<and> next_addr w' = next_addr w \<and>
   port_manager w' = port_manager w"
proof (induction ms arbitrary: w r t w')
  case Nil
  then show ?case by (auto simp add: unload_modules_Nil)
next
  case (Cons m ms)
  show ?case
  proof (cases "module_instance env m")
    case (Some e)
    with Cons.prems show ?thesis by (simp add: unload_modules_Cons)
  next
    case None
    show ?thesis
    proof (cases "unload env m (store w)")
      case (Inl e)
      with Cons.prems None show ?thesis by (simp add: unload_modules_Cons)
    next
      case (Inr s)
      obtain r1 t1 w1 where u: "unload_modules env ms (w\<lparr>store := s\<rparr>) = (r1, t1, w1)"
        by (cases "unload_modules env ms (w\<lparr>store := s\<rparr>)")
      with Cons.prems None Inr have "w' = w1" by (simp add: unload_modules_Cons)
      with Cons.IH [OF u] show ?thesis by simp
    qed
  qed
qed

lemma unload_modules_the_pm:
  "unload_modules env ms w = (r, t, w') \<Longrightarrow> the_pm w' = the_pm w"
  by (drule unload_modules_frame) (simp add: the_pm_def split: option.splits)

lemma unload_modules_resumed:
  "outcome (unload_modules env ms w) = Inr () \<Longrightarrow>
   \<forall>m\<in>set ms. Resume (Unload m) \<in> set (events (unload_modules env ms w))"
proof (induction ms arbitrary: w)
  case Nil
  show ?case by simp
next
  case (Cons m ms)
  show ?case
  proof (cases "module_instance env m")
    case (Some e)
    with Cons.prems show ?thesis by (simp add: unload_modules_Cons outcome_def)
  next
    case None
    show ?thesis
    proof (cases "unload env m (store w)")
      case (Inl e)
      with Cons.prems None show ?thesis by (simp add: unload_modules_Cons outcome_def)
    next
      case (Inr s)
      with Cons.prems None Cons.IH [of "w\<lparr>store := s\<rparr>"] show ?thesis
        by (cases "unload_modules env ms (w\<lparr>store := s\<rparr>)")
           (auto simp add: unload_modules_Cons outcome_def events_def)
    qed
  qed
qed

lemma unload_modules_no_read:
  "unload_modules env ms w = (r, t, w') \<Longrightarrow> Read_ports p a \<notin> set t"
  using unload_modules_events_subset [of env ms w] by (auto simp add: events_def)


lemma shutdown_failed_no_read:
  assumes "outcome (shutdown_handler env app w) = Inl e"
  shows "Read_ports p a \<notin> set (events (shutdown_handler env app w))"
  using assms
  by (auto simp add: shutdown_handler_eq outcome_def events_def dest: unload_modules_no_read
        split: option.splits sum.splits prod.splits)



lemma shutdown_returns:
  assumes "outcome (shutdown_handler env app w) = Inr ()"
  shows "(\<forall>m\<in>set (MODULES env). Resume (Unload m) \<in> set (events (shutdown_handler env app w))) \<and>
         Read_ports TCP (the_pm w) \<in> set (events (shutdown_handler env app w)) \<and>
         Read_ports UDP (the_pm w) \<in> set (events (shutdown_handler env app w))"
proof -
  obtain r t w' where u: "unload_modules env (MODULES env) w = (r, t, w')"
    by (cases "unload_modules env (MODULES env) w")
  with assms have r: "r = Inr ()"
    by (simp add: shutdown_handler_eq outcome_def split: option.splits sum.splits)
  from u r unload_modules_resumed [of env "MODULES env" w]
  have res: "\<forall>m\<in>set (MODULES env). Resume (Unload m) \<in> set t"
    by (simp add: outcome_def events_def)
  from u have pm: "the_pm w' = the_pm w" by (rule unload_modules_the_pm)
  from assms u r res pm show ?thesis
    by (auto simp add: shutdown_handler_eq outcome_def events_def
          split: option.splits sum.splits)
qed

subsection \<open>The background task and the tick\<close>

lemma load_modules_ignores_list_images:
  "load_modules (env\<lparr>list_images := r\<rparr>) ms = load_modules env ms"
  by (induction ms) (simp_all add: load_modules.simps instance_of_def)

lemma start_app_ignores_list_images:
  "start_app (env\<lparr>list_images := r\<rparr>) app = start_app env app"
  by (simp add: start_app_def load_modules_ignores_list_images instance_of_def)


lemma load_modules_no_call_later:
  "load_modules env ms w = (r, t, w') \<Longrightarrow> Call_later d c \<notin> set t"
  using load_modules_events_subset [of env ms w] by (auto simp add: events_def)




lemma start_app_tick:
  "\<exists>post. events (start_app env app w) =
     Set_level ''asyncio'' ERROR #
     (if startswith (platform env) ''win'' then [Call_later (1 / 2) Wakeup] else []) @ post \<and>
     (\<forall>d c. Call_later d c \<notin> set post)"
  by (auto simp add: start_app_eq events_def Let_def dest: load_modules_no_call_later
        split: option.splits sum.splits prod.splits)

subsection \<open>The concrete runs, evaluated\<close>

lemmas run_simps = start_app_eq shutdown_handler_eq load_modules_Cons load_modules_Nil
  unload_modules_Cons unload_modules_Nil events_def outcome_def final_def startswith_def
  Qemu_def the_pm_def after_instance_def new_port_manager_def held_def still_used_def Let_def
  world0_def world_leak_def env_ok_def env_win_def env_db_down_def env_no_computes_def
  env_no_vpcs_def env_close_fails_def env_stop_fails_def env_unload_fails_def
  env_images_fail_def env_release_def env_start_fails_def env_no_qemu_def

lemma startup_ok_events:
  "events (start_app env_ok () world0) =
     [Set_level ''asyncio'' ERROR,
      Await Connect_to_db, Resume Connect_to_db,
      Await Get_computes, Resume Get_computes,
      Await (Controller_start [''local'']), Resume (Controller_start [''local'']),
      Instance (Module ''Qemu''), Ensure_future List_images,
      Log DEBUG (Loading_module ''VPCS''), Instance (Module ''VPCS''),
      Set_port_manager (Module ''VPCS'') 0,
      Log DEBUG (Loading_module ''Dynamips''), Instance (Module ''Dynamips''),
      Set_port_manager (Module ''Dynamips'') 0]"
  by (simp add: run_simps)

lemma startup_ok_outcome: "outcome (start_app env_ok () world0) = Inr ()"
  by (simp add: run_simps)

section \<open>The claims\<close>

text \<open>
  C1. In every run of the startup handler the steps come in order, each awaited step having
  returned before the next begins. Whatever event \<^verbatim>\<open>ev\<close> of the run is looked at, with
  \<^verbatim>\<open>pre\<close> the events before it: a call resumes only after it was awaited; any awaited call
  other than the persistence connection comes after the connection has returned;
  \<^verbatim>\<open>Controller.start\<close> is called with the descriptors that \<^verbatim>\<open>get_computes\<close> answered,
  after \<^verbatim>\<open>get_computes\<close> has returned; a module singleton is obtained, and a module is
  given the port manager, only after \<^verbatim>\<open>Controller.start\<close> has returned; and a module is
  given the port manager only after its singleton was obtained.
\<close>

theorem start_app_steps_in_order:
  assumes run: "events (start_app env app w) = pre @ ev # post"
  shows "(ev = Resume c \<longrightarrow> Await c \<in> set pre) \<and>
         (ev = Await c \<and> c \<noteq> Connect_to_db \<longrightarrow> Resume Connect_to_db \<in> set pre) \<and>
         (ev = Await (Controller_start cs) \<longrightarrow>
            get_computes env app = Inr cs \<and> Resume Get_computes \<in> set pre) \<and>
         (ev = Instance m \<or> ev = Set_port_manager m a \<longrightarrow>
            (\<exists>ds. get_computes env app = Inr ds \<and> Resume (Controller_start ds) \<in> set pre)) \<and>
         (ev = Set_port_manager m a \<longrightarrow> Instance m \<in> set pre)"
proof (intro conjI impI)
  assume "ev = Resume c"
  with precededD [OF start_app_resume_after_await [of c env app w] _ run]
  show "Await c \<in> set pre" by simp
next
  assume "ev = Await c \<and> c \<noteq> Connect_to_db"
  with precededD [OF start_app_connect_first [of env app w] _ run]
  show "Resume Connect_to_db \<in> set pre" by simp
next
  assume ev: "ev = Await (Controller_start cs)"
  then have "Await (Controller_start cs) \<in> set (events (start_app env app w))"
    using run by simp
  then show "get_computes env app = Inr cs" by (rule start_app_start_args)
next
  assume "ev = Await (Controller_start cs)"
  with precededD [OF start_app_computes_first [of env app w] _ run]
  show "Resume Get_computes \<in> set pre" by simp
next
  assume ev: "ev = Instance m \<or> ev = Set_port_manager m a"
  have mem: "ev \<in> set (events (start_app env app w))" using run by simp
  show "\<exists>ds. get_computes env app = Inr ds \<and> Resume (Controller_start ds) \<in> set pre"
  proof (cases "get_computes env app")
    case (Inl e)
    from start_app_needs_computes [OF Inl mem] ev show ?thesis by blast
  next
    case (Inr ds)
    from precededD [OF start_app_controller_first [OF Inr, of w] _ run] ev
    have "Resume (Controller_start ds) \<in> set pre" by auto
    with Inr show ?thesis by blast
  qed
next
  assume "ev = Set_port_manager m a"
  with precededD [OF start_app_instance_first [of m env app w] _ run]
  show "Instance m \<in> set pre" by simp
qed

theorem start_app_steps_in_order_witness:
  "events (start_app env_ok () world0) =
     [Set_level ''asyncio'' ERROR, Await Connect_to_db] @
     Resume Connect_to_db #
     [Await Get_computes, Resume Get_computes,
      Await (Controller_start [''local'']), Resume (Controller_start [''local'']),
      Instance (Module ''Qemu''), Ensure_future List_images,
      Log DEBUG (Loading_module ''VPCS''), Instance (Module ''VPCS''),
      Set_port_manager (Module ''VPCS'') 0,
      Log DEBUG (Loading_module ''Dynamips''), Instance (Module ''Dynamips''),
      Set_port_manager (Module ''Dynamips'') 0] \<and>
   Await Connect_to_db \<in> set [Set_level ''asyncio'' ERROR :: string event, Await Connect_to_db] \<and>
   get_computes env_ok () = Inr [''local''] \<and>
   Resume Get_computes \<in> set
     [Set_level ''asyncio'' ERROR :: string event, Await Connect_to_db, Resume Connect_to_db,
      Await Get_computes, Resume Get_computes] \<and>
   Resume (Controller_start [''local'']) \<in> set
     [Set_level ''asyncio'' ERROR, Await Connect_to_db, Resume Connect_to_db,
      Await Get_computes, Resume Get_computes,
      Await (Controller_start [''local'']), Resume (Controller_start [''local'']),
      Instance (Module ''Qemu''), Ensure_future List_images,
      Log DEBUG (Loading_module ''VPCS''), Instance (Module ''VPCS'')] \<and>
   Instance (Module ''VPCS'') \<in> set
     [Set_level ''asyncio'' ERROR :: string event, Await Connect_to_db, Resume Connect_to_db,
      Await Get_computes, Resume Get_computes,
      Await (Controller_start [''local'']), Resume (Controller_start [''local'']),
      Instance (Module ''Qemu''), Ensure_future List_images,
      Log DEBUG (Loading_module ''VPCS''), Instance (Module ''VPCS'')]"
proof -
  have run1: "events (start_app env_ok () world0) =
     [Set_level ''asyncio'' ERROR, Await Connect_to_db] @
     Resume Connect_to_db #
     [Await Get_computes, Resume Get_computes,
      Await (Controller_start [''local'']), Resume (Controller_start [''local'']),
      Instance (Module ''Qemu''), Ensure_future List_images,
      Log DEBUG (Loading_module ''VPCS''), Instance (Module ''VPCS''),
      Set_port_manager (Module ''VPCS'') 0,
      Log DEBUG (Loading_module ''Dynamips''), Instance (Module ''Dynamips''),
      Set_port_manager (Module ''Dynamips'') 0]"
    by (simp add: startup_ok_events)
  have run2: "events (start_app env_ok () world0) =
     [Set_level ''asyncio'' ERROR, Await Connect_to_db, Resume Connect_to_db,
      Await Get_computes, Resume Get_computes] @
     Await (Controller_start [''local'']) #
     [Resume (Controller_start [''local'']),
      Instance (Module ''Qemu''), Ensure_future List_images,
      Log DEBUG (Loading_module ''VPCS''), Instance (Module ''VPCS''),
      Set_port_manager (Module ''VPCS'') 0,
      Log DEBUG (Loading_module ''Dynamips''), Instance (Module ''Dynamips''),
      Set_port_manager (Module ''Dynamips'') 0]"
    by (simp add: startup_ok_events)
  have run3: "events (start_app env_ok () world0) =
     [Set_level ''asyncio'' ERROR, Await Connect_to_db, Resume Connect_to_db,
      Await Get_computes, Resume Get_computes,
      Await (Controller_start [''local'']), Resume (Controller_start [''local'']),
      Instance (Module ''Qemu''), Ensure_future List_images,
      Log DEBUG (Loading_module ''VPCS''), Instance (Module ''VPCS'')] @
     Set_port_manager (Module ''VPCS'') 0 #
     [Log DEBUG (Loading_module ''Dynamips''), Instance (Module ''Dynamips''),
      Set_port_manager (Module ''Dynamips'') 0]"
    by (simp add: startup_ok_events)
  from start_app_steps_in_order [OF run1, where c = Connect_to_db]
    start_app_steps_in_order [OF run2, where c = "Controller_start [''local'']" and
      cs = "[''local'']"]
    start_app_steps_in_order [OF run3, where m = "Module ''VPCS''" and a = 0]
    run1
  show ?thesis by simp
qed

text \<open>
  C2 as stated: the steps of the shutdown handler are independent, and when one of them
  raises the remaining ones still run. They do not: when closing the session pool raises,
  the handler does nothing more; when \<^verbatim>\<open>Controller.stop\<close> raises, no module is unloaded;
  when the unload hook of the first of two modules raises, the hook of the second is not
  called; and in none of these runs are the ports of either protocol read.
\<close>

theorem failed_shutdown_step_skips_the_rest:
  "events (shutdown_handler env_close_fails () world_leak) = [Await Close_session] \<and>
   outcome (shutdown_handler env_close_fails () world_leak) = Inl (Error ''session'') \<and>
   events (shutdown_handler env_stop_fails () world_leak) =
     [Await Close_session, Resume Close_session, Await Controller_stop] \<and>
   outcome (shutdown_handler env_stop_fails () world_leak) = Inl (Error ''controller'') \<and>
   events (shutdown_handler env_unload_fails () world_leak) =
     [Await Close_session, Resume Close_session, Await Controller_stop, Resume Controller_stop,
      Log DEBUG (Unloading_module ''VPCS''), Instance (Module ''VPCS''),
      Await (Unload (Module ''VPCS''))] \<and>
   outcome (shutdown_handler env_unload_fails () world_leak) = Inl (Error ''unload'') \<and>
   Await (Unload (Module ''Dynamips'')) \<notin>
     set (events (shutdown_handler env_unload_fails () world_leak)) \<and>
   Read_ports TCP 0 \<notin> set (events (shutdown_handler env_unload_fails () world_leak)) \<and>
   Read_ports UDP 0 \<notin> set (events (shutdown_handler env_unload_fails () world_leak))"
  by (simp add: run_simps)

text \<open>
  C2, amended: the steps of the shutdown handler run in sequence and none has an exception
  handler. The run ends with the exception of the first step that raises: closing the
  session pool, \<^verbatim>\<open>Controller.stop\<close>, or the unload hook of a module \<^verbatim>\<open>m\<close> (the modules
  before \<^verbatim>\<open>m\<close> having been unloaded, with events \<^verbatim>\<open>t\<close>); no later step runs, and in a run
  that ends with an exception the ports of neither protocol are read. In a run that returns
  normally the unload hook of every module was called and returned, in the order of
  \<^verbatim>\<open>MODULES\<close>, and the ports of both protocols were read.
\<close>

theorem shutdown_stops_at_first_failure:
  "(close_session env = Some e \<longrightarrow>
      shutdown_handler env app w = (Inl e, [Await Close_session], w)) \<and>
   (close_session env = None \<and> controller_stop env = Some e \<longrightarrow>
      shutdown_handler env app w =
        (Inl e, [Await Close_session, Resume Close_session, Await Controller_stop], w)) \<and>
   (close_session env = None \<and> controller_stop env = None \<and>
    MODULES env = pre @ m # post \<and> unload_modules env pre w = (Inr (), t, w') \<and>
    module_instance env m = None \<and> unload env m (store w') = Inl e \<longrightarrow>
      shutdown_handler env app w =
        (Inl e, [Await Close_session, Resume Close_session, Await Controller_stop,
                 Resume Controller_stop] @ t @
                [Log DEBUG (Unloading_module (name_of m)), Instance m, Await (Unload m)],
         w')) \<and>
   (outcome (shutdown_handler env app w) = Inl e \<longrightarrow>
      (\<forall>p a. Read_ports p a \<notin> set (events (shutdown_handler env app w)))) \<and>
   (outcome (shutdown_handler env app w) = Inr () \<longrightarrow>
      unloaded (events (shutdown_handler env app w)) = MODULES env \<and>
      (\<forall>m\<in>set (MODULES env).
         Resume (Unload m) \<in> set (events (shutdown_handler env app w))) \<and>
      Read_ports TCP (the_pm w) \<in> set (events (shutdown_handler env app w)) \<and>
      Read_ports UDP (the_pm w) \<in> set (events (shutdown_handler env app w)))"
proof (intro conjI impI)
  assume "close_session env = Some e"
  then show "shutdown_handler env app w = (Inl e, [Await Close_session], w)"
    by (simp add: shutdown_handler_eq)
next
  assume "close_session env = None \<and> controller_stop env = Some e"
  then show "shutdown_handler env app w =
        (Inl e, [Await Close_session, Resume Close_session, Await Controller_stop], w)"
    by (simp add: shutdown_handler_eq)
next
  assume h: "close_session env = None \<and> controller_stop env = None \<and>
    MODULES env = pre @ m # post \<and> unload_modules env pre w = (Inr (), t, w') \<and>
    module_instance env m = None \<and> unload env m (store w') = Inl e"
  then have "unload_modules env (MODULES env) w =
      (Inl e, t @ [Log DEBUG (Unloading_module (name_of m)), Instance m, Await (Unload m)], w')"
    by (simp add: unload_modules_stops)
  with h show "shutdown_handler env app w =
        (Inl e, [Await Close_session, Resume Close_session, Await Controller_stop,
                 Resume Controller_stop] @ t @
                [Log DEBUG (Unloading_module (name_of m)), Instance m, Await (Unload m)],
         w')"
    by (simp add: shutdown_handler_eq)
next
  assume "outcome (shutdown_handler env app w) = Inl e"
  then show "\<forall>p a. Read_ports p a \<notin> set (events (shutdown_handler env app w))"
    using shutdown_failed_no_read [of env app w e] by blast
next
  assume r: "outcome (shutdown_handler env app w) = Inr ()"
  then show "unloaded (events (shutdown_handler env app w)) = MODULES env"
    by (rule shutdown_unloaded_all)
  from shutdown_returns [OF r]
  show "\<forall>m\<in>set (MODULES env).
         Resume (Unload m) \<in> set (events (shutdown_handler env app w))"
    and "Read_ports TCP (the_pm w) \<in> set (events (shutdown_handler env app w))"
    and "Read_ports UDP (the_pm w) \<in> set (events (shutdown_handler env app w))"
    by simp_all
qed

theorem shutdown_stops_at_first_failure_witness:
  "shutdown_handler env_close_fails () world_leak =
     (Inl (Error ''session''), [Await Close_session], world_leak) \<and>
   shutdown_handler env_stop_fails () world_leak =
     (Inl (Error ''controller''),
      [Await Close_session, Resume Close_session, Await Controller_stop], world_leak) \<and>
   shutdown_handler env_unload_fails () world_leak =
     (Inl (Error ''unload''),
      [Await Close_session, Resume Close_session, Await Controller_stop, Resume Controller_stop,
       Log DEBUG (Unloading_module ''VPCS''), Instance (Module ''VPCS''),
       Await (Unload (Module ''VPCS''))], world_leak) \<and>
   outcome (shutdown_handler env_ok () world_leak) = Inr () \<and>
   unloaded (events (shutdown_handler env_ok () world_leak)) =
     [Module ''VPCS'', Module ''Dynamips''] \<and>
   Read_ports TCP 0 \<in> set (events (shutdown_handler env_ok () world_leak)) \<and>
   Read_ports UDP 0 \<in> set (events (shutdown_handler env_ok () world_leak))"
  using
    shutdown_stops_at_first_failure [where env = env_close_fails and app = "()" and
      w = world_leak and e = "Error ''session''"]
    shutdown_stops_at_first_failure [where env = env_stop_fails and app = "()" and
      w = world_leak and e = "Error ''controller''"]
    shutdown_stops_at_first_failure [where env = env_unload_fails and app = "()" and
      w = world_leak and e = "Error ''unload''" and pre = "[]" and m = "Module ''VPCS''" and
      post = "[Module ''Dynamips'']" and t = "[]" and w' = world_leak]
    shutdown_stops_at_first_failure [where env = env_ok and app = "()" and w = world_leak]
  by (simp add: run_simps)

text \<open>
  C3 as stated: the shutdown handler calls the unload hooks in the reverse of the order in
  which startup gave the modules the port manager. It does not: with two modules, both
  handlers go through \<^verbatim>\<open>MODULES\<close> from its first element to its last.
\<close>

theorem unload_order_not_reversed:
  "injected (events (start_app env_ok () world0)) = [Module ''VPCS'', Module ''Dynamips''] \<and>
   unloaded (events (shutdown_handler env_ok () (final (start_app env_ok () world0)))) =
     [Module ''VPCS'', Module ''Dynamips''] \<and>
   unloaded (events (shutdown_handler env_ok () (final (start_app env_ok () world0)))) \<noteq>
     rev (injected (events (start_app env_ok () world0)))"
  by (simp add: run_simps)

text \<open>
  C3, amended: both handlers go through \<^verbatim>\<open>MODULES\<close> in its own order. In any run the
  modules given the port manager at startup, and the modules whose unload hook is called at
  shutdown, are an initial part of \<^verbatim>\<open>MODULES\<close> in that order; in a run that returns
  normally they are all of \<^verbatim>\<open>MODULES\<close>. So the modules are unloaded in the order in
  which they were loaded, not in the reverse.
\<close>

theorem modules_unloaded_in_loading_order:
  "(\<exists>k. injected (events (start_app env app w)) = take k (MODULES env)) \<and>
   (\<exists>k. unloaded (events (shutdown_handler env app w')) = take k (MODULES env)) \<and>
   (outcome (start_app env app w) = Inr () \<longrightarrow>
      injected (events (start_app env app w)) = MODULES env) \<and>
   (outcome (shutdown_handler env app w') = Inr () \<longrightarrow>
      unloaded (events (shutdown_handler env app w')) = MODULES env)"
  using start_app_injected [of env app w] shutdown_unloaded [of env app w']
    start_app_injected_all [of env app w] shutdown_unloaded_all [of env app w']
  by simp

theorem modules_unloaded_in_loading_order_witness:
  "outcome (start_app env_ok () world0) = Inr () \<and>
   outcome (shutdown_handler env_ok () world_leak) = Inr () \<and>
   injected (events (start_app env_ok () world0)) = MODULES env_ok \<and>
   unloaded (events (shutdown_handler env_ok () world_leak)) = MODULES env_ok"
  using modules_unloaded_in_loading_order [of env_ok "()" world0 world_leak]
  by (simp add: run_simps)




text \<open>
  C5 as stated: when processing one module fails, the other modules are still processed and
  the step completes. It does not: when the singleton of the first of two modules cannot be
  obtained, the handler ends with that exception and the second module is left untouched.
\<close>

theorem failed_module_stops_loading:
  "outcome (start_app env_no_vpcs () world0) = Inl (Error ''vpcs'') \<and>
   Instance (Module ''Dynamips'') \<notin> set (events (start_app env_no_vpcs () world0)) \<and>
   port_manager (final (start_app env_no_vpcs () world0)) (Module ''Dynamips'') = None"
  by (simp add: run_simps)

text \<open>
  C5, amended: the loading step has no exception handler. When the steps before it return
  normally and the singleton of a module \<^verbatim>\<open>m\<close> of \<^verbatim>\<open>MODULES\<close> cannot be obtained, all
  modules before it having been processed, the startup handler ends with the exception of
  \<^verbatim>\<open>m\<close>: exactly the modules before \<^verbatim>\<open>m\<close> were given the port manager, the last event is
  the debug line announcing \<^verbatim>\<open>m\<close>, nothing is logged above debug level, and the
  \<^verbatim>\<open>port_manager\<close> attribute of every module not before \<^verbatim>\<open>m\<close> is as it was. When the
  singleton of every module is obtained, the handler returns normally with every module
  given the port manager.
\<close>

theorem load_failure_ends_startup:
  assumes "connect_to_db env app = None" and "get_computes env app = Inr cs"
    and "controller_start env cs = None" and "module_instance env Qemu = None"
  shows "(MODULES env = pre @ m # post \<and> (\<forall>x\<in>set pre. module_instance env x = None) \<and>
          module_instance env m = Some e \<longrightarrow>
            outcome (start_app env app w) = Inl e \<and>
            injected (events (start_app env app w)) = pre \<and>
            last (events (start_app env app w)) = Log DEBUG (Loading_module (name_of m)) \<and>
            (\<forall>l msg. Log l msg \<in> set (events (start_app env app w)) \<longrightarrow> l = DEBUG) \<and>
            (\<forall>x. x \<notin> set pre \<longrightarrow>
               port_manager (final (start_app env app w)) x = port_manager w x)) \<and>
         ((\<forall>x\<in>set (MODULES env). module_instance env x = None) \<longrightarrow>
            outcome (start_app env app w) = Inr () \<and>
            injected (events (start_app env app w)) = MODULES env)"
proof (intro conjI impI)
  assume h: "MODULES env = pre @ m # post \<and> (\<forall>x\<in>set pre. module_instance env x = None) \<and>
          module_instance env m = Some e"
  then have ms: "MODULES env = pre @ m # post"
    and ok: "\<forall>x\<in>set pre. module_instance env x = None"
    and m: "module_instance env m = Some e" by simp_all
  note stop = load_modules_stops [where post = post, OF load_modules_ok [OF ok, of w] m]
  show "outcome (start_app env app w) = Inl e"
    using assms by (simp add: start_app_eq ms stop outcome_def Let_def)
  show "injected (events (start_app env app w)) = pre"
    using assms
    by (simp add: start_app_eq ms stop events_def Let_def injected_append injected_load_events)
  show "last (events (start_app env app w)) = Log DEBUG (Loading_module (name_of m))"
    using assms by (simp add: start_app_eq ms stop events_def Let_def)
  show "\<forall>l msg. Log l msg \<in> set (events (start_app env app w)) \<longrightarrow> l = DEBUG"
    using start_app_log_debug [of _ _ env app w] by blast
  show "\<forall>x. x \<notin> set pre \<longrightarrow>
          port_manager (final (start_app env app w)) x = port_manager w x"
    using assms by (simp add: start_app_eq ms stop final_def Let_def)
next
  assume ok: "\<forall>x\<in>set (MODULES env). module_instance env x = None"
  show out: "outcome (start_app env app w) = Inr ()"
    using assms by (simp add: start_app_eq load_modules_ok [OF ok] outcome_def Let_def)
  show "injected (events (start_app env app w)) = MODULES env"
    using out by (rule start_app_injected_all)
qed

theorem load_failure_ends_startup_witness:
  "outcome (start_app env_no_vpcs () world0) = Inl (Error ''vpcs'') \<and>
   injected (events (start_app env_no_vpcs () world0)) = [] \<and>
   last (events (start_app env_no_vpcs () world0)) = Log DEBUG (Loading_module ''VPCS'') \<and>
   outcome (start_app env_ok () world0) = Inr () \<and>
   injected (events (start_app env_ok () world0)) = [Module ''VPCS'', Module ''Dynamips'']"
  using load_failure_ends_startup [where env = env_no_vpcs and app = "()" and
      cs = "[''local'']" and pre = "[]" and m = "Module ''VPCS''" and
      post = "[Module ''Dynamips'']" and e = "Error ''vpcs''" and w = world0]
    load_failure_ends_startup [where env = env_ok and app = "()" and
      cs = "[''local'']" and pre = "[]" and m = "Module ''VPCS''" and
      post = "[Module ''Dynamips'']" and e = "Error ''vpcs''" and w = world0]
  by (simp add: run_simps)






text \<open>
  C8 as stated: the tick is scheduled as the sixth step, after the modules are loaded. It is
  not: on Windows the tick is the second thing the handler does, before the persistence
  connection, and every module is loaded after it.
\<close>

theorem wakeup_tick_precedes_module_loading:
  "events (start_app env_win () world0) =
     [Set_level ''asyncio'' ERROR] @
     Call_later (1 / 2) Wakeup #
     [Await Connect_to_db, Resume Connect_to_db,
      Await Get_computes, Resume Get_computes,
      Await (Controller_start [''local'']), Resume (Controller_start [''local'']),
      Instance (Module ''Qemu''), Ensure_future List_images,
      Log DEBUG (Loading_module ''VPCS''), Instance (Module ''VPCS''),
      Set_port_manager (Module ''VPCS'') 0,
      Log DEBUG (Loading_module ''Dynamips''), Instance (Module ''Dynamips''),
      Set_port_manager (Module ''Dynamips'') 0] \<and>
   Set_port_manager (Module ''VPCS'') 0 \<notin> set [Set_level ''asyncio'' ERROR :: string event] \<and>
   Set_port_manager (Module ''Dynamips'') 0 \<notin> set [Set_level ''asyncio'' ERROR :: string event]"
  by (simp add: run_simps)

text \<open>
  C8, amended: the startup handler schedules the tick exactly when \<^verbatim>\<open>sys.platform\<close> starts
  with \<^verbatim>\<open>win\<close>, with a delay of half a second, and it does so at the very start of the
  handler, right after setting the level of the asyncio logger and before the persistence
  connection and every other step; the handler itself schedules it once. On any other
  platform no tick is scheduled. The callback does nothing but schedule itself again with
  the same delay.
\<close>

theorem wakeup_tick_scheduled_first:
  "(startswith (platform env) ''win'' \<longrightarrow>
      (\<exists>post. events (start_app env app w) =
                 Set_level ''asyncio'' ERROR # Call_later (1 / 2) Wakeup # post \<and>
               (\<forall>d c. Call_later d c \<notin> set post))) \<and>
   (\<not> startswith (platform env) ''win'' \<longrightarrow>
      (\<forall>d c. Call_later d c \<notin> set (events (start_app env app w)))) \<and>
   wakeup w = (Inr (), [Call_later (1 / 2) Wakeup], w)"
proof (intro conjI impI)
  assume "startswith (platform env) ''win''"
  with start_app_tick [of env app w]
  show "\<exists>post. events (start_app env app w) =
                 Set_level ''asyncio'' ERROR # Call_later (1 / 2) Wakeup # post \<and>
               (\<forall>d c. Call_later d c \<notin> set post)"
    by simp
next
  assume "\<not> startswith (platform env) ''win''"
  with start_app_tick [of env app w]
  show "\<forall>d c. Call_later d c \<notin> set (events (start_app env app w))"
    by auto
next
  show "wakeup w = (Inr (), [Call_later (1 / 2) Wakeup], w)"
    by (simp add: wakeup_def emit_def)
qed

theorem wakeup_tick_scheduled_first_witness:
  "startswith (platform env_win) ''win'' \<and>
   events (start_app env_win () world0) =
     Set_level ''asyncio'' ERROR # Call_later (1 / 2) Wakeup #
     [Await Connect_to_db, Resume Connect_to_db,
      Await Get_computes, Resume Get_computes,
      Await (Controller_start [''local'']), Resume (Controller_start [''local'']),
      Instance (Module ''Qemu''), Ensure_future List_images,
      Log DEBUG (Loading_module ''VPCS''), Instance (Module ''VPCS''),
      Set_port_manager (Module ''VPCS'') 0,
      Log DEBUG (Loading_module ''Dynamips''), Instance (Module ''Dynamips''),
      Set_port_manager (Module ''Dynamips'') 0] \<and>
   \<not> startswith (platform env_ok) ''win'' \<and>
   Call_later (1 / 2) Wakeup \<notin> set (events (start_app env_ok () world0))"
  using wakeup_tick_scheduled_first [where env = env_win and app = "()" and w = world0]
    wakeup_tick_scheduled_first [where env = env_ok and app = "()" and w = world0]
  by (simp add: run_simps)

text \<open>
  C9 as stated: only the failure of the persistence connection is fatal, and a failure of a
  later step is isolated. It is not: the handler also ends with the exception when the
  descriptors cannot be loaded, when \<^verbatim>\<open>Controller.start\<close> raises, and when the singleton
  of a module cannot be obtained.
\<close>

theorem later_step_failure_ends_startup:
  "outcome (start_app env_no_computes () world0) = Inl (Error ''computes'') \<and>
   events (start_app env_no_computes () world0) =
     [Set_level ''asyncio'' ERROR, Await Connect_to_db, Resume Connect_to_db,
      Await Get_computes] \<and>
   outcome (start_app env_start_fails () world0) = Inl (Error ''start'') \<and>
   outcome (start_app env_no_vpcs () world0) = Inl (Error ''vpcs'')"
  by (simp add: run_simps)

text \<open>
  C9, amended: no step of the startup handler has an exception handler. An exception of the
  persistence connection propagates out of the handler, and so does an exception of the
  loading of the descriptors, of \<^verbatim>\<open>Controller.start\<close>, of \<^verbatim>\<open>Qemu.instance()\<close> and of
  the singleton of any module in the loading loop: the handler returns normally exactly
  when every one of these returns normally. Only what happens inside the image listing
  task, which is not awaited, leaves the outcome of the handler as it is.
\<close>

theorem startup_failures_propagate:
  "(connect_to_db env app = Some e \<longrightarrow> outcome (start_app env app w) = Inl e) \<and>
   (connect_to_db env app = None \<and> get_computes env app = Inl e \<longrightarrow>
      outcome (start_app env app w) = Inl e) \<and>
   (connect_to_db env app = None \<and> get_computes env app = Inr cs \<and>
    controller_start env cs = Some e \<longrightarrow> outcome (start_app env app w) = Inl e) \<and>
   (connect_to_db env app = None \<and> get_computes env app = Inr cs \<and>
    controller_start env cs = None \<and> module_instance env Qemu = Some e \<longrightarrow>
      outcome (start_app env app w) = Inl e) \<and>
   (connect_to_db env app = None \<and> get_computes env app = Inr cs \<and>
    controller_start env cs = None \<and> module_instance env Qemu = None \<and>
    MODULES env = pre @ m # post \<and> (\<forall>x\<in>set pre. module_instance env x = None) \<and>
    module_instance env m = Some e \<longrightarrow> outcome (start_app env app w) = Inl e) \<and>
   ((outcome (start_app env app w) = Inr ()) =
      (connect_to_db env app = None \<and>
       (\<exists>ds. get_computes env app = Inr ds \<and> controller_start env ds = None) \<and>
       module_instance env Qemu = None \<and>
       (\<forall>x\<in>set (MODULES env). module_instance env x = None))) \<and>
   outcome (start_app (env\<lparr>list_images := r\<rparr>) app w) = outcome (start_app env app w)"
proof (intro conjI impI)
  assume "connect_to_db env app = Some e"
  then show "outcome (start_app env app w) = Inl e"
    by (simp add: start_app_eq outcome_def Let_def)
next
  assume "connect_to_db env app = None \<and> get_computes env app = Inl e"
  then show "outcome (start_app env app w) = Inl e"
    by (simp add: start_app_eq outcome_def Let_def)
next
  assume "connect_to_db env app = None \<and> get_computes env app = Inr cs \<and>
    controller_start env cs = Some e"
  then show "outcome (start_app env app w) = Inl e"
    by (simp add: start_app_eq outcome_def Let_def)
next
  assume "connect_to_db env app = None \<and> get_computes env app = Inr cs \<and>
    controller_start env cs = None \<and> module_instance env Qemu = Some e"
  then show "outcome (start_app env app w) = Inl e"
    by (simp add: start_app_eq outcome_def Let_def)
next
  assume h: "connect_to_db env app = None \<and> get_computes env app = Inr cs \<and>
    controller_start env cs = None \<and> module_instance env Qemu = None \<and>
    MODULES env = pre @ m # post \<and> (\<forall>x\<in>set pre. module_instance env x = None) \<and>
    module_instance env m = Some e"
  then have ok: "\<forall>x\<in>set pre. module_instance env x = None"
    and m: "module_instance env m = Some e" by simp_all
  note stop = load_modules_stops [where post = post, OF load_modules_ok [OF ok, of w] m]
  with h show "outcome (start_app env app w) = Inl e"
    by (simp add: start_app_eq outcome_def Let_def)
next
  show "(outcome (start_app env app w) = Inr ()) =
      (connect_to_db env app = None \<and>
       (\<exists>ds. get_computes env app = Inr ds \<and> controller_start env ds = None) \<and>
       module_instance env Qemu = None \<and>
       (\<forall>x\<in>set (MODULES env). module_instance env x = None))"
    by (rule start_app_returns_iff)
next
  show "outcome (start_app (env\<lparr>list_images := r\<rparr>) app w) = outcome (start_app env app w)"
    by (simp add: start_app_ignores_list_images)
qed

theorem startup_failures_propagate_witness:
  "outcome (start_app env_db_down () world0) = Inl (Error ''database'') \<and>
   outcome (start_app env_no_computes () world0) = Inl (Error ''computes'') \<and>
   outcome (start_app env_start_fails () world0) = Inl (Error ''start'') \<and>
   outcome (start_app env_no_qemu () world0) = Inl (Error ''qemu'') \<and>
   outcome (start_app env_no_vpcs () world0) = Inl (Error ''vpcs'') \<and>
   outcome (start_app env_ok () world0) = Inr () \<and>
   outcome (start_app env_images_fail () world0) = Inr ()"
  using
    startup_failures_propagate [where env = env_db_down and app = "()" and w = world0 and
      e = "Error ''database''"]
    startup_failures_propagate [where env = env_no_computes and app = "()" and w = world0 and
      e = "Error ''computes''"]
    startup_failures_propagate [where env = env_start_fails and app = "()" and w = world0 and
      e = "Error ''start''" and cs = "[''local'']"]
    startup_failures_propagate [where env = env_no_qemu and app = "()" and w = world0 and
      e = "Error ''qemu''" and cs = "[''local'']"]
    startup_failures_propagate [where env = env_no_vpcs and app = "()" and w = world0 and
      e = "Error ''vpcs''" and cs = "[''local'']" and pre = "[]" and m = "Module ''VPCS''" and
      post = "[Module ''Dynamips'']"]
    startup_failures_propagate [where env = env_ok and app = "()" and w = world0 and
      r = "Inl (Error ''images'')"]
  by (simp add: run_simps)

text \<open>
  C10. Calling \<^verbatim>\<open>create_startup_handler(app)\<close> or \<^verbatim>\<open>create_shutdown_handler(app)\<close> has
  no effect: it performs no event and leaves the state as it is, whatever the state and
  the application. It only returns the handler, whose effects are those of \<^verbatim>\<open>start_app\<close>
  and \<^verbatim>\<open>shutdown_handler\<close> when it is run.
\<close>

theorem create_handlers_effect_free:
  "create_startup_handler env app w = (Inr (start_app env app), [], w) \<and>
   create_shutdown_handler env app w = (Inr (shutdown_handler env app), [], w)"
  by (simp add: create_startup_handler_def create_shutdown_handler_def returns_def)

end
